theory Spec2Isabelle
  imports Main "HOL-Library.Extended_Nat"
begin

section \<open>JavaScript strings and their UTF-8 length\<close>

text \<open>
  A JavaScript string is modelled by the list of its code points, as ECMAScript's
  \<open>StringToCodePoints\<close> gives them: a surrogate pair is one code point above \<open>0xFFFF\<close>,
  a surrogate that stands alone is the code point of its own value (\<open>0xD800\<close> to
  \<open>0xDFFF\<close>).  Code points are natural numbers up to \<open>0x10FFFF\<close>.  \<open>ascii\<close> embeds a
  literal.  The strings of the configuration and the file names are kept as plain
  character lists.
\<close>

type_synonym jsstring = "nat list"

definition ascii :: "string \<Rightarrow> jsstring" where
  "ascii s = map of_char s"

text \<open>The bytes of one code point in UTF-8; a lone surrogate is encoded as U+FFFD, as
  Node's encoder does.\<close>

definition utf8_encode :: "nat \<Rightarrow> nat list" where
  "utf8_encode C =
     (if C < 0x80 then [C]
      else if C < 0x800 then [0xC0 + C div 64, 0x80 + C mod 64]
      else if 0xD800 \<le> C \<and> C < 0xE000 then [0xEF, 0xBF, 0xBD]
      else if C < 0x10000 then
        [0xE0 + C div 4096, 0x80 + C div 64 mod 64, 0x80 + C mod 64]
      else
        [0xF0 + C div 262144, 0x80 + C div 4096 mod 64, 0x80 + C div 64 mod 64,
         0x80 + C mod 64])"

text \<open>\<open>Buffer.byteLength(str, "utf-8")\<close>: the number of bytes of the UTF-8 encoding.\<close>

definition getStringByteSize :: "jsstring \<Rightarrow> nat" where
  "getStringByteSize str = length (concat (map utf8_encode str))"

section \<open>JSON values and their serialisation\<close>

text \<open>
  The record store holds one JSON document per visited page; \<open>writeSingle\<close> reads each
  with \<open>JSON.parse\<close>, measures it with \<open>JSON.stringify(data)\<close> and writes batches with
  \<open>JSON.stringify(currentResults, null, 2)\<close>.  A parsed document is a value of \<open>json\<close>;
  an object keeps its properties in order.  A finite number is given by the text that
  \<open>Number.prototype.toString\<close> prints for it (\<open>0\<close> for both zeros), which is all that
  the code observes of it; \<open>JInfinity\<close> is a number that \<open>JSON.parse\<close> read beyond the
  range of the doubles.
\<close>

datatype json =
    JNull
  | JBool bool
  | JNum jsstring
  | JInfinity
  | JStr jsstring
  | JArr "json list"
  | JObj "(jsstring \<times> json) list"

text \<open>The decimal digits of a natural number, for the counter in the file names.\<close>

fun decimal :: "nat \<Rightarrow> string" where
  "decimal n =
     (if n < 10 then [''0123456789'' ! n]
      else decimal (n div 10) @ [''0123456789'' ! (n mod 10)])"

declare decimal.simps [simp del]

definition hex4 :: "nat \<Rightarrow> jsstring" where
  "hex4 n = ascii [''0123456789abcdef'' ! (n div 4096 mod 16),
                   ''0123456789abcdef'' ! (n div 256 mod 16),
                   ''0123456789abcdef'' ! (n div 16 mod 16),
                   ''0123456789abcdef'' ! (n mod 16)]"

text \<open>\<open>QuoteJSONString\<close> of ECMAScript, code point by code point: the two-character
  escapes, \<open>\uXXXX\<close> for the other control characters and for a lone surrogate, every
  other code point as it is.\<close>

definition QuoteChar :: "nat \<Rightarrow> jsstring" where
  "QuoteChar C =
     (if C = 0x08 then [0x5C, 0x62]
      else if C = 0x09 then [0x5C, 0x74]
      else if C = 0x0A then [0x5C, 0x6E]
      else if C = 0x0C then [0x5C, 0x66]
      else if C = 0x0D then [0x5C, 0x72]
      else if C = 0x22 then [0x5C, 0x22]
      else if C = 0x5C then [0x5C, 0x5C]
      else if C < 0x20 \<or> (0xD800 \<le> C \<and> C < 0xE000) then [0x5C, 0x75] @ hex4 C
      else [C])"

definition QuoteJSONString :: "jsstring \<Rightarrow> jsstring" where
  "QuoteJSONString s = [0x22] @ concat (map QuoteChar s) @ [0x22]"

fun join :: "jsstring \<Rightarrow> jsstring list \<Rightarrow> jsstring" where
  "join sep [] = []"
| "join sep [x] = x"
| "join sep (x # y # ys) = x @ sep @ join sep (y # ys)"

text \<open>The closing step of \<open>SerializeJSONObject\<close> and \<open>SerializeJSONArray\<close>: \<open>stepback\<close> is
  the indentation of the enclosing level, \<open>stepback @ gap\<close> that of the members; \<open>0x0A\<close>
  is the line feed and \<open>0x2C\<close> the comma.\<close>

definition wrap :: "jsstring \<Rightarrow> jsstring \<Rightarrow> jsstring \<Rightarrow> jsstring \<Rightarrow> jsstring list \<Rightarrow> jsstring" where
  "wrap gap stepback opn cls partial =
     (if partial = [] then opn @ cls
      else if gap = [] then opn @ join [0x2C] partial @ cls
      else opn @ [0x0A] @ (stepback @ gap)
             @ join ([0x2C, 0x0A] @ (stepback @ gap)) partial
             @ [0x0A] @ stepback @ cls)"

fun SerializeJSONProperty :: "jsstring \<Rightarrow> jsstring \<Rightarrow> json \<Rightarrow> jsstring" where
  "SerializeJSONProperty gap indent JNull = ascii ''null''"
| "SerializeJSONProperty gap indent (JBool b) = (if b then ascii ''true'' else ascii ''false'')"
| "SerializeJSONProperty gap indent (JNum text) = text"
| "SerializeJSONProperty gap indent JInfinity = ascii ''null''"
| "SerializeJSONProperty gap indent (JStr s) = QuoteJSONString s"
| "SerializeJSONProperty gap indent (JArr vs) =
     wrap gap indent (ascii ''['') (ascii '']'')
       (map (SerializeJSONProperty gap (indent @ gap)) vs)"
| "SerializeJSONProperty gap indent (JObj kvs) =
     wrap gap indent (ascii ''{'') (ascii ''}'')
       (map (\<lambda>(k, v). QuoteJSONString k @ ascii '':'' @ (if gap = [] then [] else ascii '' '')
                         @ SerializeJSONProperty gap (indent @ gap) v) kvs)"

text \<open>\<open>JSON.stringify(v)\<close>: no gap, everything on one line.\<close>

definition JSON_stringify :: "json \<Rightarrow> jsstring" where
  "JSON_stringify v = SerializeJSONProperty [] [] v"

text \<open>\<open>JSON.stringify(v, null, 2)\<close>: a gap of two spaces.\<close>

definition JSON_stringify_2 :: "json \<Rightarrow> jsstring" where
  "JSON_stringify_2 v = SerializeJSONProperty (ascii ''  '') [] v"

section \<open>JavaScript helpers used by the grouping code\<close>

datatype error = ReadError | SyntaxError | TypeError | InvalidURL | EstimatorError

text \<open>A value read from a property is a JSON value or \<open>undefined\<close> (\<open>None\<close>).\<close>

fun truthy :: "json option \<Rightarrow> bool" where
  "truthy None = False"
| "truthy (Some JNull) = False"
| "truthy (Some (JBool b)) = b"
| "truthy (Some (JNum text)) = (text \<noteq> ascii ''0'')"
| "truthy (Some JInfinity) = True"
| "truthy (Some (JStr s)) = (s \<noteq> [])"
| "truthy (Some (JArr vs)) = True"
| "truthy (Some (JObj kvs)) = True"

text \<open>\<open>data.k\<close>: a TypeError on \<open>null\<close>, the property of an object, \<open>undefined\<close> on every
  other parsed value.\<close>

fun getProperty :: "json \<Rightarrow> jsstring \<Rightarrow> error + json option" where
  "getProperty JNull k = Inl TypeError"
| "getProperty (JObj kvs) k = Inr (map_of kvs k)"
| "getProperty (JBool b) k = Inr None"
| "getProperty (JNum text) k = Inr None"
| "getProperty JInfinity k = Inr None"
| "getProperty (JStr s) k = Inr None"
| "getProperty (JArr vs) k = Inr None"

definition endsWith :: "string \<Rightarrow> string \<Rightarrow> bool" where
  "endsWith s search =
     (length search \<le> length s \<and> drop (length s - length search) s = search)"

text \<open>\<open>s.replace(/\.json$/, "")\<close>\<close>

definition replace_json_suffix :: "string \<Rightarrow> string" where
  "replace_json_suffix s = (if endsWith s ''.json'' then take (length s - 5) s else s)"

text \<open>\<open>s.replace(/\//g, "_")\<close> on a path name (\<open>0x2F\<close> is the slash, \<open>0x5F\<close> the underscore)\<close>

definition replace_slashes :: "jsstring \<Rightarrow> jsstring" where
  "replace_slashes s = map (\<lambda>C. if C = 0x2F then 0x5F else C) s"

text \<open>\<open>s.replace(/^_/, "")\<close>\<close>

fun replace_leading_underscore :: "jsstring \<Rightarrow> jsstring" where
  "replace_leading_underscore [] = []"
| "replace_leading_underscore (C # Cs) = (if C = 0x5F then Cs else C # Cs)"

section \<open>Configuration\<close>

text \<open>The fields of \<open>Config\<close> that \<open>crawlSingle\<close> and \<open>writeSingle\<close> read for seed
  resolution and batching.  \<open>maxFileSize\<close> is in megabytes; both ceilings are optional.\<close>

record config =
  url :: string
  outputFileName :: string
  maxFileSize :: "nat option"
  maxTokens :: "nat option"

section \<open>Seed resolution in \<open>crawlSingle\<close>\<close>

definition SITEMAP_SUFFIX :: string where
  "SITEMAP_SUFFIX = ''sitemap.xml''"

definition isUrlASitemap :: "string \<Rightarrow> bool" where
  "isUrlASitemap u = endsWith u SITEMAP_SUFFIX"

text \<open>What the crawler is started on: nothing when \<open>NO_CRAWL\<close> is set, otherwise its
  initial requests.\<close>

datatype frontier = NotStarted | Run "string list"

text \<open>
  \<open>crawlSingle\<close>, as far as the frontier's initial requests go (both branches on
  \<open>isArray\<close> resolve the seed in the same way).  \<open>downloadListOfUrls\<close> is the external
  sitemap fetch; its failure rejects the call.
\<close>

definition crawlSingle :: "bool \<Rightarrow> (string \<Rightarrow> error + string list) \<Rightarrow> config \<Rightarrow> error + frontier" where
  "crawlSingle NO_CRAWL downloadListOfUrls c =
     (if NO_CRAWL then Inr NotStarted
      else if isUrlASitemap (url c) then
        (case downloadListOfUrls (url c) of
           Inl e \<Rightarrow> Inl e
         | Inr listOfUrls \<Rightarrow> Inr (Run listOfUrls))
      else Inr (Run [url c]))"

section \<open>Grouping in \<open>writeSingle\<close>\<close>

text \<open>The parts of a \<open>URL\<close> object the code reads.\<close>

record URL =
  hostname :: jsstring
  pathname :: jsstring

text \<open>
  The record store: \<open>fs file\<close> is what \<open>readFile\<close> followed by \<open>JSON.parse\<close> gives for a
  path (an error when either throws).  \<open>URL_new v\<close> is the platform's \<open>new URL(v)\<close>,
  \<open>None\<close> when it throws; it is a parameter of the model.
\<close>

type_synonym filesystem = "string \<Rightarrow> error + json"
type_synonym url_parser = "json \<Rightarrow> URL option"

text \<open>\<open>filesByUrl\<close>: a JavaScript \<open>Map\<close>, whose entries keep insertion order.  \<open>mapPush\<close> is
  the \<open>has\<close> / \<open>set\<close> / \<open>get(...).push\<close> sequence.\<close>

fun mapPush :: "string \<Rightarrow> string \<Rightarrow> (string \<times> string list) list \<Rightarrow> (string \<times> string list) list" where
  "mapPush k file [] = [(k, [file])]"
| "mapPush k file ((k', files) # m) =
     (if k = k' then (k', files @ [file]) # m else (k', files) # mapPush k file m)"

text \<open>\<open>data.sourceUrl || data.url\<close>\<close>

definition sourceUrlOf :: "json \<Rightarrow> error + json option" where
  "sourceUrlOf data =
     (case getProperty data (ascii ''sourceUrl'') of
        Inl e \<Rightarrow> Inl e
      | Inr a \<Rightarrow> if truthy a then Inr a else getProperty data (ascii ''url''))"

definition cleanUrl :: "URL \<Rightarrow> jsstring" where
  "cleanUrl urlObj =
     hostname urlObj @ replace_leading_underscore (replace_slashes (pathname urlObj))"

text \<open>The body of the \<open>try\<close> block of the first loop: \<open>cleanUrl\<close> is computed and the
  file is pushed under \<open>configKey\<close>.\<close>

definition tryCategorize ::
  "url_parser \<Rightarrow> filesystem \<Rightarrow> config \<Rightarrow> string \<Rightarrow> (string \<times> string list) list
     \<Rightarrow> error + (string \<times> string list) list" where
  "tryCategorize URL_new fs c file filesByUrl =
     (case fs file of
        Inl e \<Rightarrow> Inl e
      | Inr data \<Rightarrow>
          (case sourceUrlOf data of
             Inl e \<Rightarrow> Inl e
           | Inr None \<Rightarrow>
               (let configKey = replace_json_suffix (outputFileName c)
                in Inr (mapPush configKey file filesByUrl))
           | Inr (Some sourceUrl) \<Rightarrow>
               if truthy (Some sourceUrl) then
                 (case URL_new sourceUrl of
                    None \<Rightarrow> Inl InvalidURL
                  | Some urlObj \<Rightarrow>
                      (let cleanUrl = cleanUrl urlObj;
                           configKey = replace_json_suffix (outputFileName c)
                       in Inr (mapPush configKey file filesByUrl)))
               else
                 (let configKey = replace_json_suffix (outputFileName c)
                  in Inr (mapPush configKey file filesByUrl))))"

text \<open>One iteration of the first loop, with its \<open>catch\<close>.\<close>

definition categorize ::
  "url_parser \<Rightarrow> filesystem \<Rightarrow> config \<Rightarrow> string \<Rightarrow> (string \<times> string list) list
     \<Rightarrow> (string \<times> string list) list" where
  "categorize URL_new fs c file filesByUrl =
     (case tryCategorize URL_new fs c file filesByUrl of
        Inr m \<Rightarrow> m
      | Inl e \<Rightarrow>
          (let configKey = replace_json_suffix (outputFileName c)
           in mapPush configKey file filesByUrl))"

fun categorizeAll ::
  "url_parser \<Rightarrow> filesystem \<Rightarrow> config \<Rightarrow> string list \<Rightarrow> (string \<times> string list) list
     \<Rightarrow> (string \<times> string list) list" where
  "categorizeAll URL_new fs c [] filesByUrl = filesByUrl"
| "categorizeAll URL_new fs c (file # jsonFiles) filesByUrl =
     categorizeAll URL_new fs c jsonFiles (categorize URL_new fs c file filesByUrl)"

section \<open>Batching in \<open>writeSingle\<close>\<close>

text \<open>One call of \<open>writeFile\<close>: the name, the batch that was serialised and the text
  written.  The call is taken to succeed.\<close>

record artifact =
  path :: string
  items :: "json list"
  content :: jsstring

text \<open>The variables of one group's closure, and the log of the \<open>writeFile\<close> calls made so
  far.  Sizes and token counts are natural numbers.\<close>

record batcher =
  currentResults :: "json list"
  currentSize :: nat
  fileCounter :: nat
  estimatedTokens :: nat
  written :: "artifact list"

text \<open>\<open>isWithinTokenLimit(text, limit)\<close> of the tokenizer library: the token count, or
  \<open>false\<close> (\<open>None\<close>), or an exception (the library throws on a text that holds one of
  its special tokens).  It is a parameter of the model.\<close>

type_synonym estimator = "jsstring \<Rightarrow> enat \<Rightarrow> error + nat option"

text \<open>\<open>urlConfig.maxFileSize ? urlConfig.maxFileSize * 1024 * 1024 : Infinity\<close>\<close>

definition maxBytes :: "config \<Rightarrow> enat" where
  "maxBytes urlConfig =
     (case maxFileSize urlConfig of
        None \<Rightarrow> \<infinity>
      | Some mb \<Rightarrow> if mb = 0 then \<infinity> else enat (mb * 1024 * 1024))"

text \<open>\<open>urlConfig.maxTokens || Infinity\<close>\<close>

definition tokenLimit :: "config \<Rightarrow> enat" where
  "tokenLimit urlConfig =
     (case maxTokens urlConfig of
        None \<Rightarrow> \<infinity>
      | Some n \<Rightarrow> if n = 0 then \<infinity> else enat n)"

text \<open>\<open>x > urlConfig.maxTokens!\<close>: a comparison with \<open>undefined\<close> is false.\<close>

definition exceedsMaxTokens :: "nat \<Rightarrow> config \<Rightarrow> bool" where
  "exceedsMaxTokens x urlConfig =
     (case maxTokens urlConfig of None \<Rightarrow> False | Some n \<Rightarrow> x > n)"

definition nextFileName :: "config \<Rightarrow> nat \<Rightarrow> string" where
  "nextFileName urlConfig counter =
     replace_json_suffix (outputFileName urlConfig) @ ''-'' @ decimal counter @ ''.json''"

definition writeBatchToFile :: "config \<Rightarrow> batcher \<Rightarrow> batcher" where
  "writeBatchToFile urlConfig s =
     s\<lparr> written := written s @
           [\<lparr> path = nextFileName urlConfig (fileCounter s),
              items = currentResults s,
              content = JSON_stringify_2 (JArr (currentResults s)) \<rparr>],
        currentResults := [],
        currentSize := 0,
        fileCounter := fileCounter s + 1 \<rparr>"

text \<open>The first statement of \<open>addContentOrSplit\<close> after the two measurements: the
  branch on \<open>typeof tokenCount === "number"\<close>.\<close>

definition addContentOrSplit_tokens ::
  "config \<Rightarrow> json \<Rightarrow> nat option \<Rightarrow> batcher \<Rightarrow> batcher" where
  "addContentOrSplit_tokens urlConfig data tokenCount s =
     (case tokenCount of
        None \<Rightarrow> s
      | Some t \<Rightarrow>
          if exceedsMaxTokens (estimatedTokens s + t) urlConfig then
            (let s' = (if length (currentResults s) > 0 then writeBatchToFile urlConfig s else s)
             in s'\<lparr> estimatedTokens := t div 2,
                     currentResults := currentResults s' @ [data] \<rparr>)
          else
            s\<lparr> currentResults := currentResults s @ [data],
               estimatedTokens := estimatedTokens s + t \<rparr>)"

text \<open>Its last two statements: the byte total and the byte check.\<close>

definition addContentOrSplit_bytes :: "config \<Rightarrow> jsstring \<Rightarrow> batcher \<Rightarrow> batcher" where
  "addContentOrSplit_bytes urlConfig contentString s =
     (let s' = s\<lparr> currentSize := currentSize s + getStringByteSize contentString \<rparr>
      in if enat (currentSize s') > maxBytes urlConfig then writeBatchToFile urlConfig s' else s')"

text \<open>\<open>addContentOrSplit\<close>: the two measurements, then the two parts above.  The call of
  the estimator stands outside any \<open>try\<close>: when it throws, so does the step.\<close>

definition addContentOrSplit ::
  "estimator \<Rightarrow> config \<Rightarrow> json \<Rightarrow> batcher \<Rightarrow> error + batcher" where
  "addContentOrSplit isWithinTokenLimit urlConfig data s =
     (let contentString = JSON_stringify data
      in case isWithinTokenLimit contentString (tokenLimit urlConfig) of
           Inl e \<Rightarrow> Inl e
         | Inr tokenCount \<Rightarrow>
             Inr (addContentOrSplit_bytes urlConfig contentString
                    (addContentOrSplit_tokens urlConfig data tokenCount s)))"

text \<open>The second loop over one group's files.  \<open>readFile\<close>, \<open>JSON.parse\<close> and
  \<open>addContentOrSplit\<close> stand outside any \<open>try\<close> here: an error ends the loop and is
  returned with the state reached.\<close>

fun processFiles ::
  "estimator \<Rightarrow> filesystem \<Rightarrow> config \<Rightarrow> string list \<Rightarrow> batcher \<Rightarrow> batcher \<times> error option" where
  "processFiles isWithinTokenLimit fs urlConfig [] s = (s, None)"
| "processFiles isWithinTokenLimit fs urlConfig (file # files) s =
     (case fs file of
        Inl e \<Rightarrow> (s, Some e)
      | Inr data \<Rightarrow>
          (case addContentOrSplit isWithinTokenLimit urlConfig data s of
             Inl e \<Rightarrow> (s, Some e)
           | Inr s' \<Rightarrow> processFiles isWithinTokenLimit fs urlConfig files s'))"

text \<open>The closure variables at the start of a group; \<open>w\<close> is what earlier groups wrote.\<close>

definition initialBatcher :: "artifact list \<Rightarrow> batcher" where
  "initialBatcher w =
     \<lparr> currentResults = [], currentSize = 0, fileCounter = 1, estimatedTokens = 0,
       written = w \<rparr>"

text \<open>One iteration of the loop over \<open>filesByUrl.entries()\<close>: the files written up to the
  end of the iteration, and the error that ended it, if any.\<close>

definition processGroup ::
  "estimator \<Rightarrow> filesystem \<Rightarrow> config \<Rightarrow> string \<times> string list \<Rightarrow> artifact list
     \<Rightarrow> artifact list \<times> error option" where
  "processGroup isWithinTokenLimit fs c entry w =
     (let urlKey = fst entry;
          files = snd entry;
          urlConfig = c\<lparr> outputFileName := urlKey @ ''.json'' \<rparr>;
          r = processFiles isWithinTokenLimit fs urlConfig files (initialBatcher w)
      in case snd r of
           Some e \<Rightarrow> (written (fst r), Some e)
         | None \<Rightarrow>
             if length (currentResults (fst r)) > 0
             then (written (writeBatchToFile urlConfig (fst r)), None)
             else (written (fst r), None))"

fun processGroups ::
  "estimator \<Rightarrow> filesystem \<Rightarrow> config \<Rightarrow> (string \<times> string list) list \<Rightarrow> artifact list
     \<Rightarrow> artifact list \<times> error option" where
  "processGroups isWithinTokenLimit fs c [] w = (w, None)"
| "processGroups isWithinTokenLimit fs c (entry # entries) w =
     (case processGroup isWithinTokenLimit fs c entry w of
        (w', Some e) \<Rightarrow> (w', Some e)
      | (w', None) \<Rightarrow> processGroups isWithinTokenLimit fs c entries w')"

text \<open>\<open>writeSingle\<close>: the files it wrote, and the rejection or the value it returns.
  \<open>jsonFiles\<close> is the result of the \<open>glob\<close> over the record store.\<close>

definition writeSingle ::
  "estimator \<Rightarrow> url_parser \<Rightarrow> filesystem \<Rightarrow> string list \<Rightarrow> config
     \<Rightarrow> artifact list \<times> (error + string)" where
  "writeSingle isWithinTokenLimit URL_new fs jsonFiles c =
     (let filesByUrl = categorizeAll URL_new fs c jsonFiles [];
          r = processGroups isWithinTokenLimit fs c filesByUrl []
      in case snd r of
           Some e \<Rightarrow> (fst r, Inl e)
         | None \<Rightarrow> (fst r, Inr (outputFileName c)))"




section \<open>Instances of the external collaborators, for concrete runs\<close>

text \<open>
  The token estimator, the URL constructor and the record store are parameters of the
  model, and the general theorems below hold for all of them.  To run the model on
  concrete inputs this section fixes instances of each.

  \<open>roughTokens\<close> counts one token for every four bytes and, like \<open>isWithinTokenLimit\<close>,
  answers \<open>false\<close> when the count is above the limit; it never throws.  \<open>strictTokens\<close>
  does the same but throws on a text that holds \<open><|endoftext|>\<close>, as the library does
  on its special tokens.
\<close>

definition roughTokens :: estimator where
  "roughTokens text limit =
     (let t = getStringByteSize text div 4 in if enat t > limit then Inr None else Inr (Some t))"

fun contains :: "jsstring \<Rightarrow> jsstring \<Rightarrow> bool" where
  "contains [] part = (part = [])"
| "contains (C # Cs) part = (take (length part) (C # Cs) = part \<or> contains Cs part)"

definition strictTokens :: estimator where
  "strictTokens text limit =
     (if contains text (ascii ''<|endoftext|>'') then Inl EstimatorError
      else roughTokens text limit)"

text \<open>The record that the request handler hands to \<open>pushData\<close>: \<open>url\<close> and \<open>sourceUrl\<close>
  are both the loaded URL.\<close>

definition page :: "string \<Rightarrow> string \<Rightarrow> jsstring \<Rightarrow> json" where
  "page title u html =
     JObj [(ascii ''title'', JStr (ascii title)), (ascii ''url'', JStr (ascii u)),
           (ascii ''html'', JStr html), (ascii ''sourceUrl'', JStr (ascii u))]"

text \<open>\<open>new URL\<close> on the strings \<open>http://host/path\<close> and \<open>https://host/path\<close> (a host name
  in lower case, no port, query or fragment, a path that needs no normalisation); it
  throws on a value that is not such a string.\<close>

definition hostAndPath :: "jsstring \<Rightarrow> URL option" where
  "hostAndPath rest =
     (let host = takeWhile (\<lambda>C. C \<noteq> 0x2F) rest;
          p = dropWhile (\<lambda>C. C \<noteq> 0x2F) rest
      in if host = [] then None
         else Some \<lparr> hostname = host, pathname = (if p = [] then ascii ''/'' else p) \<rparr>)"

definition URL_new_http :: url_parser where
  "URL_new_http v =
     (case v of
        JStr s \<Rightarrow>
          if take 8 s = ascii ''https://'' then hostAndPath (drop 8 s)
          else if take 7 s = ascii ''http://'' then hostAndPath (drop 7 s)
          else None
      | _ \<Rightarrow> None)"

text \<open>A record store given by its files; a path that is not listed cannot be read.\<close>

definition storeOf :: "(string \<times> (error + json)) list \<Rightarrow> filesystem" where
  "storeOf entries file = (case map_of entries file of None \<Rightarrow> Inl ReadError | Some r \<Rightarrow> r)"

definition tokenCappedConfig :: config where
  "tokenCappedConfig =
     \<lparr> url = ''https://example.com/a/b'', outputFileName = ''output.json'',
       maxFileSize = None, maxTokens = Some 30 \<rparr>"

definition byteCappedConfig :: config where
  "byteCappedConfig =
     \<lparr> url = ''https://example.com/a/b'', outputFileName = ''output.json'',
       maxFileSize = Some 1, maxTokens = None \<rparr>"

definition dualCappedConfig :: config where
  "dualCappedConfig =
     \<lparr> url = ''https://example.com/a/b'', outputFileName = ''output.json'',
       maxFileSize = Some 1, maxTokens = Some 400000 \<rparr>"

definition narrowConfig :: config where
  "narrowConfig =
     \<lparr> url = ''https://example.com/a/b'', outputFileName = ''output.json'',
       maxFileSize = Some 1, maxTokens = Some 30 \<rparr>"

definition sitemapConfig :: config where
  "sitemapConfig =
     \<lparr> url = ''https://site.test/sitemap.xml'', outputFileName = ''output.json'',
       maxFileSize = None, maxTokens = None \<rparr>"

text \<open>\<open>shortPage\<close> serialises to 95 bytes (23 tokens), \<open>longPage\<close> to 143 bytes (35
  tokens, above the ceiling of \<open>tokenCappedConfig\<close>), \<open>bigPage title n\<close> with a title of
  one letter to \<open>93 + n\<close> bytes.  The text of \<open>accentPage\<close> is U+00E9, U+20AC and
  U+1F600: three code points, four UTF-16 code units, nine bytes in UTF-8.  The text
  of \<open>endoftextPage\<close> is \<open><|endoftext|>\<close>.\<close>

definition shortPage :: json where
  "shortPage = page ''A'' ''https://example.com/a/b'' (ascii ''hi'')"

definition longPage :: json where
  "longPage = page ''B'' ''https://example.com/a/b''
                (ascii ''a text of fifty characters, too long for the limit'')"

definition bigPage :: "string \<Rightarrow> nat \<Rightarrow> json" where
  "bigPage title n = page title ''https://example.com/a/b'' (replicate n 0x61)"

definition accentPage :: json where
  "accentPage = page ''A'' ''https://example.com/a/b'' [0xE9, 0x20AC, 0x1F600]"

definition endoftextPage :: json where
  "endoftextPage = page ''B'' ''https://example.com/a/b'' (ascii ''<|endoftext|>'')"

definition twoFiles :: "string list" where
  "twoFiles = [''000000001.json'', ''000000002.json'']"

definition threeFiles :: "string list" where
  "threeFiles = [''000000001.json'', ''000000002.json'', ''000000003.json'']"

definition smallStore :: filesystem where
  "smallStore = storeOf [(''000000001.json'', Inr shortPage), (''000000002.json'', Inr longPage)]"

definition bigStore :: filesystem where
  "bigStore = storeOf [(''000000001.json'', Inr (bigPage ''A'' 600000)),
                       (''000000002.json'', Inr (bigPage ''B'' 600000))]"

definition exactFitStore :: filesystem where
  "exactFitStore = storeOf [(''000000001.json'', Inr (bigPage ''A'' 1048483))]"

definition mixedStore :: filesystem where
  "mixedStore = storeOf [(''000000001.json'', Inr shortPage),
                         (''000000002.json'', Inr (bigPage ''B'' 1048483))]"

definition brokenStore :: filesystem where
  "brokenStore = storeOf [(''000000001.json'', Inr shortPage),
                          (''000000002.json'', Inl SyntaxError),
                          (''000000003.json'', Inr longPage)]"

definition specialTokenStore :: filesystem where
  "specialTokenStore = storeOf [(''000000001.json'', Inr shortPage),
                                (''000000002.json'', Inr endoftextPage)]"

text \<open>Two states that the runs below reach: \<open>afterShort\<close> after \<open>shortPage\<close> alone, and
  \<open>afterBigA\<close> after a page of 1200000 bytes under \<open>dualCappedConfig\<close>, which the byte
  check has flushed.\<close>

definition afterShort :: batcher where
  "afterShort =
     \<lparr> currentResults = [shortPage], currentSize = 95, fileCounter = 1,
       estimatedTokens = 23, written = [] \<rparr>"

definition afterBigA :: batcher where
  "afterBigA =
     \<lparr> currentResults = [], currentSize = 0, fileCounter = 2, estimatedTokens = 300000,
       written = [\<lparr> path = ''output-1.json'', items = [bigPage ''A'' 1199907],
                    content = JSON_stringify_2 (JArr [bigPage ''A'' 1199907]) \<rparr>] \<rparr>"

section \<open>Notions used in the statements\<close>

text \<open>The bytes that \<open>addContentOrSplit\<close> counts for a list of records.\<close>

definition contentBytes :: "json list \<Rightarrow> nat" where
  "contentBytes ds = sum_list (map (\<lambda>d. getStringByteSize (JSON_stringify d)) ds)"

text \<open>The files written so far in a group are numbered from 1 without a gap, and the
  counter is one ahead.\<close>

definition namedInSequence :: "string \<Rightarrow> batcher \<Rightarrow> bool" where
  "namedInSequence urlKey s \<longleftrightarrow>
     fileCounter s = Suc (length (written s)) \<and>
     map path (written s)
       = map (\<lambda>i. urlKey @ ''-'' @ decimal i @ ''.json'') [1..<fileCounter s]"

section \<open>Lemmas about the model\<close>

subsection \<open>The UTF-8 length\<close>

lemma utf8_encode_length:
  "length (utf8_encode C)
     = (if C < 0x80 then 1 else if C < 0x800 then 2 else if C < 0x10000 then 3 else 4)"
  by (simp add: utf8_encode_def)

lemma getStringByteSize_simps [simp]:
  "getStringByteSize [] = 0"
  "getStringByteSize (C # Cs) = length (utf8_encode C) + getStringByteSize Cs"
  "getStringByteSize (xs @ ys) = getStringByteSize xs + getStringByteSize ys"
  by (simp_all add: getStringByteSize_def)

lemma getStringByteSize_sum:
  "getStringByteSize str
     = sum_list (map (\<lambda>C. if C < 0x80 then 1 else if C < 0x800 then 2
                            else if C < 0x10000 then 3 else 4) str)"
  by (induction str) (simp_all add: utf8_encode_length)

lemma getStringByteSize_replicate:
  "getStringByteSize (replicate n C) = n * length (utf8_encode C)"
  by (induction n) simp_all

subsection \<open>The group configuration and string helpers\<close>

lemma tokenLimit_urlConfig [simp]: "tokenLimit (c\<lparr>outputFileName := x\<rparr>) = tokenLimit c"
  by (simp add: tokenLimit_def)

lemma maxBytes_urlConfig [simp]: "maxBytes (c\<lparr>outputFileName := x\<rparr>) = maxBytes c"
  by (simp add: maxBytes_def)

lemma exceedsMaxTokens_urlConfig [simp]:
  "exceedsMaxTokens n (c\<lparr>outputFileName := x\<rparr>) = exceedsMaxTokens n c"
  by (simp add: exceedsMaxTokens_def)

lemma endsWith_append [simp]: "endsWith (p @ s) s"
  by (simp add: endsWith_def)

lemma endsWith_iff: "endsWith s t \<longleftrightarrow> (\<exists>p. s = p @ t)"
proof
  assume "endsWith s t"
  then have "s = take (length s - length t) s @ t"
    by (metis append_take_drop_id endsWith_def)
  then show "\<exists>p. s = p @ t" ..
next
  assume "\<exists>p. s = p @ t"
  then show "endsWith s t" by auto
qed

lemma replace_json_suffix_append [simp]: "replace_json_suffix (k @ ''.json'') = k"
  by (simp add: replace_json_suffix_def)

subsection \<open>The fields after a flush\<close>

lemma writeBatchToFile_fields [simp]:
  "written (writeBatchToFile c s) = written s @
      [\<lparr> path = nextFileName c (fileCounter s), items = currentResults s,
         content = JSON_stringify_2 (JArr (currentResults s)) \<rparr>]"
  "currentResults (writeBatchToFile c s) = []"
  "currentSize (writeBatchToFile c s) = 0"
  "fileCounter (writeBatchToFile c s) = Suc (fileCounter s)"
  "estimatedTokens (writeBatchToFile c s) = estimatedTokens s"
  by (simp_all add: writeBatchToFile_def)

subsection \<open>The step, when the estimator returns\<close>

lemma addContentOrSplit_Inr:
  "addContentOrSplit est c d s = Inr s' \<longleftrightarrow>
     (\<exists>tc. est (JSON_stringify d) (tokenLimit c) = Inr tc \<and>
           s' = addContentOrSplit_bytes c (JSON_stringify d) (addContentOrSplit_tokens c d tc s))"
  by (auto simp: addContentOrSplit_def Let_def split: sum.splits)

lemma addContentOrSplit_returns:
  "est (JSON_stringify d) (tokenLimit c) = Inr tc \<Longrightarrow>
   addContentOrSplit est c d s
     = Inr (addContentOrSplit_bytes c (JSON_stringify d) (addContentOrSplit_tokens c d tc s))"
  by (simp add: addContentOrSplit_def)

lemma addContentOrSplit_throws:
  "est (JSON_stringify d) (tokenLimit c) = Inl e \<Longrightarrow> addContentOrSplit est c d s = Inl e"
  by (simp add: addContentOrSplit_def)

subsection \<open>Records flushed and records pending\<close>







subsection \<open>Byte counts of lists\<close>

lemma contentBytes_simps [simp]:
  "contentBytes [] = 0"
  "contentBytes (d # ds) = getStringByteSize (JSON_stringify d) + contentBytes ds"
  "contentBytes (xs @ ys) = contentBytes xs + contentBytes ys"
  by (simp_all add: contentBytes_def)

lemma contentBytes_butlast: "contentBytes (butlast xs) \<le> contentBytes xs"
  by (induction xs) auto

subsection \<open>The byte total bounds the pending batch\<close>

text \<open>Between two records the byte total is within the ceiling and is at least the
  bytes of the pending batch; a file that was written is within the ceiling up to its
  last record.\<close>

lemma tokens_bytes_inv:
  assumes "contentBytes (currentResults s) \<le> currentSize s"
    and "enat (currentSize s) \<le> maxBytes c"
    and "\<forall>a\<in>set (written s). enat (contentBytes (butlast (items a))) \<le> maxBytes c"
  shows "contentBytes (butlast (currentResults (addContentOrSplit_tokens c d tc s)))
           \<le> currentSize (addContentOrSplit_tokens c d tc s)"
    and "contentBytes (currentResults (addContentOrSplit_tokens c d tc s))
           \<le> currentSize (addContentOrSplit_tokens c d tc s) + getStringByteSize (JSON_stringify d)"
    and "enat (currentSize (addContentOrSplit_tokens c d tc s)) \<le> maxBytes c"
    and "\<forall>a\<in>set (written (addContentOrSplit_tokens c d tc s)).
           enat (contentBytes (butlast (items a))) \<le> maxBytes c"
proof -
  have le: "enat (contentBytes (butlast (currentResults s))) \<le> maxBytes c"
    using assms(1,2) contentBytes_butlast [of "currentResults s"]
    by (meson enat_ord_simps(1) order_trans)
  have b: "contentBytes (butlast (currentResults s)) \<le> currentSize s"
    using assms(1) contentBytes_butlast [of "currentResults s"] by linarith
  show "contentBytes (butlast (currentResults (addContentOrSplit_tokens c d tc s)))
           \<le> currentSize (addContentOrSplit_tokens c d tc s)"
    using assms(1) b by (cases tc) (simp_all add: addContentOrSplit_tokens_def Let_def)
  show "contentBytes (currentResults (addContentOrSplit_tokens c d tc s))
           \<le> currentSize (addContentOrSplit_tokens c d tc s) + getStringByteSize (JSON_stringify d)"
    using assms(1) by (cases tc) (simp_all add: addContentOrSplit_tokens_def Let_def)
  show "enat (currentSize (addContentOrSplit_tokens c d tc s)) \<le> maxBytes c"
    using assms(2)
    by (cases tc) (simp_all add: addContentOrSplit_tokens_def Let_def zero_enat_def [symmetric])
  show "\<forall>a\<in>set (written (addContentOrSplit_tokens c d tc s)).
           enat (contentBytes (butlast (items a))) \<le> maxBytes c"
    using assms(3) le by (cases tc) (simp_all add: addContentOrSplit_tokens_def Let_def)
qed

lemma bytes_bytes_inv:
  assumes "contentBytes (butlast (currentResults s)) \<le> currentSize s"
    and "contentBytes (currentResults s) \<le> currentSize s + getStringByteSize str"
    and "enat (currentSize s) \<le> maxBytes c"
    and "\<forall>a\<in>set (written s). enat (contentBytes (butlast (items a))) \<le> maxBytes c"
  shows "contentBytes (currentResults (addContentOrSplit_bytes c str s))
           \<le> currentSize (addContentOrSplit_bytes c str s)"
    and "enat (currentSize (addContentOrSplit_bytes c str s)) \<le> maxBytes c"
    and "\<forall>a\<in>set (written (addContentOrSplit_bytes c str s)).
           enat (contentBytes (butlast (items a))) \<le> maxBytes c"
proof -
  have le: "enat (contentBytes (butlast (currentResults s))) \<le> maxBytes c"
    using assms(1,3) by (meson enat_ord_simps(1) order_trans)
  show "contentBytes (currentResults (addContentOrSplit_bytes c str s))
           \<le> currentSize (addContentOrSplit_bytes c str s)"
    using assms(2) by (simp add: addContentOrSplit_bytes_def Let_def)
  show "enat (currentSize (addContentOrSplit_bytes c str s)) \<le> maxBytes c"
    by (simp add: addContentOrSplit_bytes_def Let_def zero_enat_def [symmetric] not_less)
  show "\<forall>a\<in>set (written (addContentOrSplit_bytes c str s)).
           enat (contentBytes (butlast (items a))) \<le> maxBytes c"
    using assms(4) le by (simp add: addContentOrSplit_bytes_def Let_def)
qed

lemma step_bytes_inv:
  assumes "addContentOrSplit est c d s = Inr s'"
    and "contentBytes (currentResults s) \<le> currentSize s"
    and "enat (currentSize s) \<le> maxBytes c"
    and "\<forall>a\<in>set (written s). enat (contentBytes (butlast (items a))) \<le> maxBytes c"
  shows "contentBytes (currentResults s') \<le> currentSize s'"
    and "enat (currentSize s') \<le> maxBytes c"
    and "\<forall>a\<in>set (written s'). enat (contentBytes (butlast (items a))) \<le> maxBytes c"
proof -
  from assms(1) obtain tc where
    s': "s' = addContentOrSplit_bytes c (JSON_stringify d) (addContentOrSplit_tokens c d tc s)"
    by (auto simp: addContentOrSplit_Inr)
  show "contentBytes (currentResults s') \<le> currentSize s'"
    and "enat (currentSize s') \<le> maxBytes c"
    and "\<forall>a\<in>set (written s'). enat (contentBytes (butlast (items a))) \<le> maxBytes c"
    unfolding s' using bytes_bytes_inv [OF tokens_bytes_inv [OF assms(2-4)]] by blast+
qed

lemma processFiles_bytes_inv:
  assumes "contentBytes (currentResults s) \<le> currentSize s"
    and "enat (currentSize s) \<le> maxBytes c"
    and "\<forall>a\<in>set (written s). enat (contentBytes (butlast (items a))) \<le> maxBytes c"
  shows "contentBytes (currentResults (fst (processFiles est fs c files s)))
           \<le> currentSize (fst (processFiles est fs c files s))
       \<and> enat (currentSize (fst (processFiles est fs c files s))) \<le> maxBytes c
       \<and> (\<forall>a\<in>set (written (fst (processFiles est fs c files s))).
           enat (contentBytes (butlast (items a))) \<le> maxBytes c)"
  using assms
proof (induction files arbitrary: s)
  case Nil
  then show ?case by simp
next
  case (Cons f files)
  show ?case
  proof (cases "fs f")
    case (Inl e)
    with Cons.prems show ?thesis by simp
  next
    case (Inr d)
    show ?thesis
    proof (cases "addContentOrSplit est c d s")
      case (Inl e)
      with Cons.prems \<open>fs f = Inr d\<close> show ?thesis by simp
    next
      case step: (Inr s')
      from Cons.IH [OF step_bytes_inv [OF step Cons.prems]] \<open>fs f = Inr d\<close> step
      show ?thesis by simp
    qed
  qed
qed

lemma processGroup_bytes_inv:
  "\<forall>a\<in>set (fst (processGroup est fs c (urlKey, files) [])).
      enat (contentBytes (butlast (items a))) \<le> maxBytes c"
proof -
  let ?uc = "c\<lparr>outputFileName := urlKey @ ''.json''\<rparr>"
  let ?r = "fst (processFiles est fs ?uc files (initialBatcher []))"
  have "contentBytes (currentResults ?r) \<le> currentSize ?r
       \<and> enat (currentSize ?r) \<le> maxBytes ?uc
       \<and> (\<forall>a\<in>set (written ?r). enat (contentBytes (butlast (items a))) \<le> maxBytes ?uc)"
    by (rule processFiles_bytes_inv) (simp_all add: initialBatcher_def zero_enat_def [symmetric])
  then have 1: "contentBytes (currentResults ?r) \<le> currentSize ?r"
    and 2: "enat (currentSize ?r) \<le> maxBytes c"
    and 3: "\<forall>a\<in>set (written ?r). enat (contentBytes (butlast (items a))) \<le> maxBytes c"
    by simp_all
  have "enat (contentBytes (butlast (currentResults ?r))) \<le> maxBytes c"
    using 1 2 contentBytes_butlast [of "currentResults ?r"]
    by (meson enat_ord_simps(1) order_trans)
  with 3 show ?thesis
    by (auto simp: processGroup_def Let_def split: option.splits)
qed

subsection \<open>The first loop builds one group\<close>

lemma categorize_eq:
  "categorize URL_new fs c file m = mapPush (replace_json_suffix (outputFileName c)) file m"
  by (simp add: categorize_def tryCategorize_def Let_def split: sum.splits option.splits)

lemma categorizeAll_one_group:
  "categorizeAll URL_new fs c files [(replace_json_suffix (outputFileName c), xs)]
     = [(replace_json_suffix (outputFileName c), xs @ files)]"
  by (induction files arbitrary: xs) (simp_all add: categorize_eq)

lemma categorizeAll_empty:
  "categorizeAll URL_new fs c jsonFiles []
     = (if jsonFiles = [] then [] else [(replace_json_suffix (outputFileName c), jsonFiles)])"
  by (cases jsonFiles) (simp_all add: categorize_eq categorizeAll_one_group)

lemma writeSingle_one_group:
  "jsonFiles \<noteq> [] \<Longrightarrow>
   writeSingle est URL_new fs jsonFiles c =
     (fst (processGroup est fs c (replace_json_suffix (outputFileName c), jsonFiles) []),
      case snd (processGroup est fs c (replace_json_suffix (outputFileName c), jsonFiles) []) of
        Some e \<Rightarrow> Inl e | None \<Rightarrow> Inr (outputFileName c))"
  by (simp add: writeSingle_def categorizeAll_empty Let_def split: prod.splits option.splits)

lemma writeSingle_no_files:
  "writeSingle est URL_new fs [] c = ([], Inr (outputFileName c))"
  by (simp add: writeSingle_def)



subsection \<open>File names within a group\<close>

lemma nextFileName_urlConfig [simp]:
  "nextFileName (c\<lparr>outputFileName := urlKey @ ''.json''\<rparr>) n
     = urlKey @ ''-'' @ decimal n @ ''.json''"
  by (simp add: nextFileName_def)

lemma flush_named:
  "namedInSequence urlKey s \<Longrightarrow>
   namedInSequence urlKey (writeBatchToFile (c\<lparr>outputFileName := urlKey @ ''.json''\<rparr>) s)"
  by (simp add: namedInSequence_def)

lemma tokens_named:
  "namedInSequence urlKey s \<Longrightarrow>
   namedInSequence urlKey
     (addContentOrSplit_tokens (c\<lparr>outputFileName := urlKey @ ''.json''\<rparr>) d tc s)"
  by (cases tc) (simp_all add: addContentOrSplit_tokens_def Let_def namedInSequence_def)

lemma bytes_named:
  "namedInSequence urlKey s \<Longrightarrow>
   namedInSequence urlKey
     (addContentOrSplit_bytes (c\<lparr>outputFileName := urlKey @ ''.json''\<rparr>) str s)"
  by (simp add: addContentOrSplit_bytes_def Let_def namedInSequence_def)

lemma processFiles_named:
  "namedInSequence urlKey s \<Longrightarrow>
   namedInSequence urlKey
     (fst (processFiles est fs (c\<lparr>outputFileName := urlKey @ ''.json''\<rparr>) files s))"
proof (induction files arbitrary: s)
  case Nil
  then show ?case by simp
next
  case (Cons f files)
  let ?uc = "c\<lparr>outputFileName := urlKey @ ''.json''\<rparr>"
  show ?case
  proof (cases "fs f")
    case (Inl e)
    with Cons.prems show ?thesis by simp
  next
    case (Inr d)
    show ?thesis
    proof (cases "addContentOrSplit est ?uc d s")
      case (Inl e)
      with Cons.prems \<open>fs f = Inr d\<close> show ?thesis by simp
    next
      case step: (Inr s')
      then obtain tc where
        "s' = addContentOrSplit_bytes ?uc (JSON_stringify d) (addContentOrSplit_tokens ?uc d tc s)"
        by (auto simp: addContentOrSplit_Inr)
      then have "namedInSequence urlKey s'"
        by (simp add: bytes_named tokens_named Cons.prems)
      from Cons.IH [OF this] \<open>fs f = Inr d\<close> step show ?thesis by simp
    qed
  qed
qed

lemma processGroup_names:
  "map path (fst (processGroup est fs c (urlKey, files) []))
     = map (\<lambda>i. urlKey @ ''-'' @ decimal i @ ''.json'')
         [1..<Suc (length (fst (processGroup est fs c (urlKey, files) [])))]"
proof -
  let ?uc = "c\<lparr>outputFileName := urlKey @ ''.json''\<rparr>"
  let ?r = "fst (processFiles est fs ?uc files (initialBatcher []))"
  have "namedInSequence urlKey (initialBatcher [])"
    by (simp add: namedInSequence_def initialBatcher_def)
  then have r: "namedInSequence urlKey ?r" by (rule processFiles_named)
  have f: "namedInSequence urlKey (writeBatchToFile ?uc ?r)"
    using r by (rule flush_named)
  have names: "map path (written t)
      = map (\<lambda>i. urlKey @ ''-'' @ decimal i @ ''.json'') [1..<Suc (length (written t))]"
    if "namedInSequence urlKey t" for t
    using that by (simp add: namedInSequence_def)
  have "fst (processGroup est fs c (urlKey, files) []) = written ?r
      \<or> fst (processGroup est fs c (urlKey, files) []) = written (writeBatchToFile ?uc ?r)"
    by (simp add: processGroup_def Let_def split: option.splits)
  then show ?thesis
    using names [OF r] names [OF f] by metis
qed

subsection \<open>The text of the files written\<close>

lemma tokens_content:
  "\<forall>a\<in>set (written s). content a = JSON_stringify_2 (JArr (items a)) \<Longrightarrow>
   \<forall>a\<in>set (written (addContentOrSplit_tokens c d tc s)).
      content a = JSON_stringify_2 (JArr (items a))"
  by (cases tc) (simp_all add: addContentOrSplit_tokens_def Let_def)

lemma bytes_content:
  "\<forall>a\<in>set (written s). content a = JSON_stringify_2 (JArr (items a)) \<Longrightarrow>
   \<forall>a\<in>set (written (addContentOrSplit_bytes c str s)).
      content a = JSON_stringify_2 (JArr (items a))"
  by (simp add: addContentOrSplit_bytes_def Let_def)

lemma processFiles_content:
  "\<forall>a\<in>set (written s). content a = JSON_stringify_2 (JArr (items a)) \<Longrightarrow>
   \<forall>a\<in>set (written (fst (processFiles est fs c files s))).
      content a = JSON_stringify_2 (JArr (items a))"
proof (induction files arbitrary: s)
  case Nil
  then show ?case by simp
next
  case (Cons f files)
  show ?case
  proof (cases "fs f")
    case (Inl e)
    with Cons.prems show ?thesis by simp
  next
    case (Inr d)
    show ?thesis
    proof (cases "addContentOrSplit est c d s")
      case (Inl e)
      with Cons.prems \<open>fs f = Inr d\<close> show ?thesis by simp
    next
      case step: (Inr s')
      then obtain tc where
        "s' = addContentOrSplit_bytes c (JSON_stringify d) (addContentOrSplit_tokens c d tc s)"
        by (auto simp: addContentOrSplit_Inr)
      then have "\<forall>a\<in>set (written s'). content a = JSON_stringify_2 (JArr (items a))"
        using bytes_content [OF tokens_content [OF Cons.prems]] by simp
      from Cons.IH [OF this] \<open>fs f = Inr d\<close> step show ?thesis by simp
    qed
  qed
qed

lemma processGroup_content:
  "map content (fst (processGroup est fs c (urlKey, files) []))
     = map (\<lambda>a. JSON_stringify_2 (JArr (items a)))
         (fst (processGroup est fs c (urlKey, files) []))"
proof -
  let ?uc = "c\<lparr>outputFileName := urlKey @ ''.json''\<rparr>"
  let ?r = "fst (processFiles est fs ?uc files (initialBatcher []))"
  have "\<forall>a\<in>set (written ?r). content a = JSON_stringify_2 (JArr (items a))"
    by (rule processFiles_content) (simp add: initialBatcher_def)
  then have "\<forall>a\<in>set (fst (processGroup est fs c (urlKey, files) [])).
               content a = JSON_stringify_2 (JArr (items a))"
    by (auto simp: processGroup_def Let_def split: option.splits)
  then show ?thesis by simp
qed

subsection \<open>The byte total over a stretch without a flush\<close>

lemma step_written:
  assumes "addContentOrSplit est c d s = Inr s'"
  shows "\<exists>xs. written s' = written s @ xs \<and>
              (xs = [] \<longrightarrow> currentSize s' = currentSize s + getStringByteSize (JSON_stringify d))"
proof -
  from assms obtain tc where
    s': "s' = addContentOrSplit_bytes c (JSON_stringify d) (addContentOrSplit_tokens c d tc s)"
    by (auto simp: addContentOrSplit_Inr)
  show ?thesis
    unfolding s'
    by (cases tc)
       (simp_all add: addContentOrSplit_bytes_def addContentOrSplit_tokens_def Let_def)
qed

lemma processFiles_written:
  "\<exists>xs. written (fst (processFiles est fs c files s)) = written s @ xs"
proof (induction files arbitrary: s)
  case Nil
  then show ?case by simp
next
  case (Cons f files)
  show ?case
  proof (cases "fs f")
    case (Inl e)
    then show ?thesis by simp
  next
    case (Inr d)
    show ?thesis
    proof (cases "addContentOrSplit est c d s")
      case (Inl e)
      with \<open>fs f = Inr d\<close> show ?thesis by simp
    next
      case step: (Inr s')
      from step_written [OF step] obtain xs where "written s' = written s @ xs" by blast
      moreover from Cons.IH [of s'] obtain ys where
        "written (fst (processFiles est fs c files s')) = written s' @ ys" by blast
      ultimately show ?thesis using \<open>fs f = Inr d\<close> step by simp
    qed
  qed
qed

lemma processFiles_no_flush:
  assumes "map fs files = map Inr ds"
    and "\<forall>d\<in>set ds. \<exists>tc. est (JSON_stringify d) (tokenLimit c) = Inr tc"
    and "written (fst (processFiles est fs c files s)) = written s"
  shows "currentSize (fst (processFiles est fs c files s)) = currentSize s + contentBytes ds"
  using assms
proof (induction files arbitrary: s ds)
  case Nil
  then show ?case by simp
next
  case (Cons f files)
  then obtain d ds' where ds: "ds = d # ds'" "fs f = Inr d" "map fs files = map Inr ds'"
    by (cases ds) auto
  from Cons.prems(2) ds(1) obtain tc where tc: "est (JSON_stringify d) (tokenLimit c) = Inr tc"
    by auto
  let ?s' = "addContentOrSplit_bytes c (JSON_stringify d) (addContentOrSplit_tokens c d tc s)"
  have step: "addContentOrSplit est c d s = Inr ?s'"
    using tc by (rule addContentOrSplit_returns)
  from step_written [OF step] obtain xs where
    xs: "written ?s' = written s @ xs"
        "xs = [] \<longrightarrow> currentSize ?s' = currentSize s + getStringByteSize (JSON_stringify d)"
    by blast
  from processFiles_written [of est fs c files ?s'] obtain ys where
    ys: "written (fst (processFiles est fs c files ?s')) = written ?s' @ ys" by blast
  have final: "written (fst (processFiles est fs c files ?s')) = written s"
    using Cons.prems(3) ds(2) step by simp
  with xs(1) ys have "xs = []" "ys = []" by simp_all
  then have size: "currentSize ?s' = currentSize s + getStringByteSize (JSON_stringify d)"
    and same: "written (fst (processFiles est fs c files ?s')) = written ?s'"
    using xs ys by simp_all
  have rest: "\<forall>d\<in>set ds'. \<exists>tc. est (JSON_stringify d) (tokenLimit c) = Inr tc"
    using Cons.prems(2) ds(1) by simp
  from Cons.IH [OF ds(3) rest same] size ds(1,2) step
  show ?case by simp
qed

subsection \<open>Concrete runs\<close>

lemma concat_replicate_single: "concat (replicate n [x]) = replicate n x"
  by (induction n) simp_all

lemmas text_eval = ascii_def JSON_stringify_def QuoteJSONString_def QuoteChar_def wrap_def
  utf8_encode_length getStringByteSize_replicate concat_replicate_single

lemma shortPage_bytes: "getStringByteSize (JSON_stringify shortPage) = 95"
  by (simp add: shortPage_def page_def text_eval)

lemma longPage_bytes: "getStringByteSize (JSON_stringify longPage) = 143"
  by (simp add: longPage_def page_def text_eval)

lemma accentPage_bytes:
  "getStringByteSize (JSON_stringify accentPage) = 102"
  "length (JSON_stringify accentPage) = 96"
  by (simp_all add: accentPage_def page_def text_eval)

lemma shortPage_file_bytes:
  "getStringByteSize (JSON_stringify_2 (JArr [shortPage])) = 128"
  by (simp add: shortPage_def page_def JSON_stringify_2_def text_eval)

lemma bigPage_bytes:
  "getStringByteSize (JSON_stringify (bigPage ''A'' n)) = 93 + n"
  "getStringByteSize (JSON_stringify (bigPage ''B'' n)) = 93 + n"
  by (simp_all add: bigPage_def page_def text_eval)

lemma bigPage_file_bytes:
  "getStringByteSize (JSON_stringify_2 (JArr [bigPage ''A'' n])) = 126 + n"
  by (simp add: bigPage_def page_def JSON_stringify_2_def text_eval)

lemma pages_distinct: "shortPage \<noteq> longPage" "bigPage ''A'' n \<noteq> bigPage ''B'' m"
  by (simp_all add: shortPage_def longPage_def bigPage_def page_def ascii_def)

lemma roughTokens_returns: "\<exists>tc. roughTokens text limit = Inr tc"
  by (simp add: roughTokens_def Let_def)

lemma roughTokens_pages:
  "roughTokens (JSON_stringify shortPage) (tokenLimit tokenCappedConfig) = Inr (Some 23)"
  "roughTokens (JSON_stringify longPage) (tokenLimit tokenCappedConfig) = Inr None"
  "roughTokens (JSON_stringify (bigPage ''B'' 1199907)) (tokenLimit dualCappedConfig)
     = Inr (Some 300000)"
  "roughTokens (JSON_stringify (bigPage ''B'' 1048483)) (tokenLimit narrowConfig) = Inr None"
  "roughTokens (JSON_stringify shortPage) (tokenLimit narrowConfig) = Inr (Some 23)"
  by (simp_all add: roughTokens_def tokenLimit_def tokenCappedConfig_def dualCappedConfig_def
        narrowConfig_def shortPage_bytes longPage_bytes bigPage_bytes)

lemma strictTokens_endoftext:
  "strictTokens (JSON_stringify endoftextPage) limit = Inl EstimatorError"
  by (simp add: strictTokens_def endoftextPage_def page_def text_eval)

lemma strictTokens_shortPage:
  "strictTokens (JSON_stringify shortPage) (tokenLimit tokenCappedConfig) = Inr (Some 23)"
proof -
  have "\<not> contains (JSON_stringify shortPage) (ascii ''<|endoftext|>'')"
    by (simp add: shortPage_def page_def text_eval)
  then show ?thesis by (simp add: strictTokens_def roughTokens_pages)
qed

lemma ceilings:
  "maxBytes byteCappedConfig = enat 1048576"
  "maxBytes dualCappedConfig = enat 1048576"
  "maxBytes tokenCappedConfig = \<infinity>"
  "maxBytes narrowConfig = enat 1048576"
  by (simp_all add: maxBytes_def byteCappedConfig_def dualCappedConfig_def tokenCappedConfig_def
        narrowConfig_def)

lemmas batch_eval = processGroup_def initialBatcher_def addContentOrSplit_def
  addContentOrSplit_tokens_def addContentOrSplit_bytes_def
  exceedsMaxTokens_def tokenLimit_def maxBytes_def Let_def storeOf_def roughTokens_def
  decimal.simps nextFileName_def replace_json_suffix_def endsWith_def

lemma smallStore_reads: "map smallStore twoFiles = map Inr [shortPage, longPage]"
  by (simp add: smallStore_def twoFiles_def storeOf_def)

lemma run_token_capped:
  "processGroup roughTokens smallStore tokenCappedConfig (''output'', twoFiles) []
   = ([\<lparr> path = ''output-1.json'', items = [shortPage],
          content = JSON_stringify_2 (JArr [shortPage]) \<rparr>], None)"
  by (simp add: batch_eval smallStore_def twoFiles_def tokenCappedConfig_def
        shortPage_bytes longPage_bytes)

lemma steps_token_capped:
  "addContentOrSplit roughTokens tokenCappedConfig shortPage (initialBatcher []) = Inr afterShort"
  "addContentOrSplit roughTokens tokenCappedConfig longPage afterShort
     = Inr \<lparr> currentResults = [shortPage], currentSize = 238, fileCounter = 1,
             estimatedTokens = 23, written = [] \<rparr>"
  "addContentOrSplit roughTokens tokenCappedConfig longPage (initialBatcher [])
     = Inr \<lparr> currentResults = [], currentSize = 143, fileCounter = 1,
             estimatedTokens = 0, written = [] \<rparr>"
  by (simp_all add: batch_eval afterShort_def tokenCappedConfig_def shortPage_bytes
        longPage_bytes)

lemma run_byte_capped:
  "processGroup roughTokens bigStore byteCappedConfig (''output'', twoFiles) []
   = ([\<lparr> path = ''output-1.json'', items = [bigPage ''A'' 600000, bigPage ''B'' 600000],
          content = JSON_stringify_2 (JArr [bigPage ''A'' 600000, bigPage ''B'' 600000]) \<rparr>],
      None)"
  by (simp add: batch_eval bigStore_def twoFiles_def byteCappedConfig_def bigPage_bytes)

lemma run_exact_fit:
  "processGroup roughTokens exactFitStore byteCappedConfig (''output'', [''000000001.json'']) []
   = ([\<lparr> path = ''output-1.json'', items = [bigPage ''A'' 1048483],
          content = JSON_stringify_2 (JArr [bigPage ''A'' 1048483]) \<rparr>], None)"
  by (simp add: batch_eval exactFitStore_def byteCappedConfig_def bigPage_bytes)

lemma run_mixed:
  "processGroup roughTokens mixedStore narrowConfig (''output'', twoFiles) []
   = ([\<lparr> path = ''output-1.json'', items = [shortPage],
          content = JSON_stringify_2 (JArr [shortPage]) \<rparr>], None)"
  by (simp add: batch_eval mixedStore_def twoFiles_def narrowConfig_def shortPage_bytes
        bigPage_bytes)

lemma steps_mixed:
  "addContentOrSplit roughTokens narrowConfig shortPage (initialBatcher []) = Inr afterShort"
  "addContentOrSplit roughTokens narrowConfig (bigPage ''B'' 1048483) afterShort
     = Inr \<lparr> currentResults = [], currentSize = 0, fileCounter = 2, estimatedTokens = 23,
             written = [\<lparr> path = ''output-1.json'', items = [shortPage],
                          content = JSON_stringify_2 (JArr [shortPage]) \<rparr>] \<rparr>"
  by (simp_all add: batch_eval afterShort_def narrowConfig_def shortPage_bytes bigPage_bytes
        writeBatchToFile_def)

lemma steps_dual_capped:
  "addContentOrSplit roughTokens dualCappedConfig (bigPage ''A'' 1199907) (initialBatcher [])
     = Inr afterBigA"
  "addContentOrSplit roughTokens dualCappedConfig (bigPage ''B'' 1199907) afterBigA
     = Inr \<lparr> currentResults = [], currentSize = 0, fileCounter = 3, estimatedTokens = 150000,
         written = [\<lparr> path = ''output-1.json'', items = [bigPage ''A'' 1199907],
                      content = JSON_stringify_2 (JArr [bigPage ''A'' 1199907]) \<rparr>,
                    \<lparr> path = ''output-2.json'', items = [bigPage ''B'' 1199907],
                      content = JSON_stringify_2 (JArr [bigPage ''B'' 1199907]) \<rparr>] \<rparr>"
  by (simp_all add: batch_eval afterBigA_def dualCappedConfig_def bigPage_bytes
        writeBatchToFile_def)

lemma step_accent:
  "addContentOrSplit roughTokens byteCappedConfig accentPage (initialBatcher [])
     = Inr \<lparr> currentResults = [accentPage], currentSize = 102, fileCounter = 1,
             estimatedTokens = 25, written = [] \<rparr>"
  by (simp add: batch_eval byteCappedConfig_def accentPage_bytes)

lemma configKeys:
  "replace_json_suffix ''output.json'' = ''output''"
  "outputFileName tokenCappedConfig = ''output.json''"
  "outputFileName byteCappedConfig = ''output.json''"
  by (simp_all add: replace_json_suffix_def endsWith_def tokenCappedConfig_def
        byteCappedConfig_def)

lemma files_nonempty: "twoFiles \<noteq> []" "threeFiles \<noteq> []"
  by (simp_all add: twoFiles_def threeFiles_def)


lemma writeSingle_byte_capped:
  "writeSingle roughTokens URL_new_http bigStore twoFiles byteCappedConfig
     = ([\<lparr> path = ''output-1.json'', items = [bigPage ''A'' 600000, bigPage ''B'' 600000],
            content = JSON_stringify_2 (JArr [bigPage ''A'' 600000, bigPage ''B'' 600000]) \<rparr>],
        Inr ''output.json'')"
  by (simp add: writeSingle_one_group files_nonempty configKeys run_byte_capped)

lemma run_broken:
  "writeSingle roughTokens URL_new_http brokenStore threeFiles tokenCappedConfig
     = ([], Inl SyntaxError)"
  by (simp add: writeSingle_one_group batch_eval brokenStore_def threeFiles_def
        tokenCappedConfig_def shortPage_bytes)

lemma run_special_token:
  "map specialTokenStore twoFiles = map Inr [shortPage, endoftextPage]"
  "writeSingle strictTokens URL_new_http specialTokenStore twoFiles tokenCappedConfig
     = ([], Inl EstimatorError)"
proof -
  show "map specialTokenStore twoFiles = map Inr [shortPage, endoftextPage]"
    by (simp add: specialTokenStore_def twoFiles_def storeOf_def)
  have 1: "addContentOrSplit strictTokens (tokenCappedConfig\<lparr>outputFileName := ''output.json''\<rparr>)
             shortPage (initialBatcher []) = Inr afterShort"
    using strictTokens_shortPage
    by (simp add: addContentOrSplit_def addContentOrSplit_tokens_def addContentOrSplit_bytes_def
          exceedsMaxTokens_def maxBytes_def afterShort_def initialBatcher_def
          tokenCappedConfig_def shortPage_bytes Let_def)
  have 2: "addContentOrSplit strictTokens (tokenCappedConfig\<lparr>outputFileName := ''output.json''\<rparr>)
             endoftextPage afterShort = Inl EstimatorError"
    by (simp add: addContentOrSplit_throws strictTokens_endoftext)
  show "writeSingle strictTokens URL_new_http specialTokenStore twoFiles tokenCappedConfig
     = ([], Inl EstimatorError)"
    using 1 2
    by (simp add: writeSingle_one_group files_nonempty configKeys processGroup_def Let_def
          specialTokenStore_def twoFiles_def storeOf_def afterShort_def)
qed

lemma run_small_files:
  "processFiles roughTokens smallStore tokenCappedConfig twoFiles (initialBatcher [])
     = (\<lparr> currentResults = [shortPage], currentSize = 238, fileCounter = 1,
          estimatedTokens = 23, written = [] \<rparr>, None)"
  by (simp add: batch_eval smallStore_def twoFiles_def tokenCappedConfig_def
        shortPage_bytes longPage_bytes)

section \<open>The claims\<close>

subsection \<open>C1: lossless partition\<close>




subsection \<open>C2: a record above the token ceiling\<close>

text \<open>
  C2, as the code has it.  The claim reads: a record for which the estimator returns a
  non-numeric result is still appended to the pending batch, the token estimate stays
  and the byte total grows by the record's bytes.  In the code both pushes stand under
  \<open>typeof tokenCount === "number"\<close>: such a record is not appended.  The token estimate
  is unchanged and the byte total grows by the record's bytes; when the total then
  exceeds the byte ceiling the pending batch, without the record, is written.
\<close>

theorem rejected_record_is_not_appended:
  assumes "est (JSON_stringify d) (tokenLimit c) = Inr None"
  shows "\<exists>s'. addContentOrSplit est c d s = Inr s' \<and>
         estimatedTokens s' = estimatedTokens s \<and>
         (if enat (currentSize s + getStringByteSize (JSON_stringify d)) > maxBytes c
          then written s'
                 = written s @ [\<lparr> path = nextFileName c (fileCounter s),
                                   items = currentResults s,
                                   content = JSON_stringify_2 (JArr (currentResults s)) \<rparr>]
               \<and> currentResults s' = []
               \<and> currentSize s' = 0
          else written s' = written s
               \<and> currentResults s' = currentResults s
               \<and> currentSize s' = currentSize s + getStringByteSize (JSON_stringify d))"
  using assms
  by (simp add: addContentOrSplit_def addContentOrSplit_tokens_def addContentOrSplit_bytes_def
        Let_def)

theorem rejected_record_is_not_appended_witness:
  "roughTokens (JSON_stringify longPage) (tokenLimit tokenCappedConfig) = Inr None \<and>
   (\<exists>s'. addContentOrSplit roughTokens tokenCappedConfig longPage (initialBatcher []) = Inr s' \<and>
         estimatedTokens s' = 0 \<and> written s' = [] \<and> currentResults s' = [] \<and>
         currentSize s' = 143)"
  using rejected_record_is_not_appended
          [where est = roughTokens and d = longPage and c = tokenCappedConfig
             and s = "initialBatcher []", OF roughTokens_pages(2)]
  by (simp add: roughTokens_pages(2) ceilings longPage_bytes initialBatcher_def)

text \<open>C2 as stated fails: the estimator returns \<open>false\<close> for \<open>longPage\<close>, and the step on
  \<open>longPage\<close> after \<open>shortPage\<close> leaves the pending batch as it was, \<open>shortPage\<close> alone.\<close>

theorem rejected_record_counterexample:
  "roughTokens (JSON_stringify longPage) (tokenLimit tokenCappedConfig) = Inr None \<and>
   addContentOrSplit roughTokens tokenCappedConfig shortPage (initialBatcher []) = Inr afterShort \<and>
   currentResults afterShort = [shortPage] \<and>
   addContentOrSplit roughTokens tokenCappedConfig longPage afterShort
     = Inr \<lparr> currentResults = [shortPage], currentSize = 238, fileCounter = 1,
             estimatedTokens = 23, written = [] \<rparr>"
proof -
  have "currentResults afterShort = [shortPage]" by (simp add: afterShort_def)
  with roughTokens_pages(2) steps_token_capped(1,2) show ?thesis by blast
qed

subsection \<open>C3: the byte ceiling\<close>

text \<open>
  C3, as the code has it.  The claim reads: every file written is within the byte
  ceiling, but for a single record larger than the ceiling, which is written alone.
  \<open>addContentOrSplit\<close> compares the byte total with the ceiling after the token branch
  has run, and writes the pending batch as it then is.  What holds is: in every file
  written for a group, and so in every file that \<open>writeSingle\<close> writes, the records
  before the last one are within the ceiling, counted as the code counts them.
\<close>

theorem byte_ceiling_up_to_last_record:
  "(\<forall>a \<in> set (fst (processGroup est fs c (urlKey, files) [])).
      enat (contentBytes (butlast (items a))) \<le> maxBytes c) \<and>
   (\<forall>a \<in> set (fst (writeSingle est URL_new fs files c)).
      enat (contentBytes (butlast (items a))) \<le> maxBytes c)"
proof -
  have "\<forall>a \<in> set (fst (writeSingle est URL_new fs files c)).
          enat (contentBytes (butlast (items a))) \<le> maxBytes c"
  proof (cases "files = []")
    case True
    then show ?thesis by (simp add: writeSingle_no_files)
  next
    case False
    then show ?thesis
      using processGroup_bytes_inv [of est fs c "replace_json_suffix (outputFileName c)" files]
      by (simp add: writeSingle_one_group)
  qed
  with processGroup_bytes_inv [of est fs c urlKey files] show ?thesis by simp
qed

theorem byte_ceiling_up_to_last_record_witness:
  "enat (contentBytes (butlast [bigPage ''A'' 600000, bigPage ''B'' 600000]))
     \<le> maxBytes byteCappedConfig"
proof -
  have "\<lparr> path = ''output-1.json'', items = [bigPage ''A'' 600000, bigPage ''B'' 600000],
          content = JSON_stringify_2 (JArr [bigPage ''A'' 600000, bigPage ''B'' 600000]) \<rparr>
        \<in> set (fst (processGroup roughTokens bigStore byteCappedConfig (''output'', twoFiles) []))"
    by (simp add: run_byte_capped)
  from bspec [OF conjunct1 [OF byte_ceiling_up_to_last_record] this] show ?thesis by simp
qed

text \<open>C3 as stated fails: with a ceiling of one megabyte, two pages of 600093 bytes
  each, neither above the ceiling, are written to one file of 1200186 bytes.\<close>

theorem byte_ceiling_counterexample:
  "map items (fst (writeSingle roughTokens URL_new_http bigStore twoFiles byteCappedConfig))
     = [[bigPage ''A'' 600000, bigPage ''B'' 600000]] \<and>
   maxBytes byteCappedConfig = enat 1048576 \<and>
   contentBytes [bigPage ''A'' 600000] = 600093 \<and>
   contentBytes [bigPage ''B'' 600000] = 600093 \<and>
   contentBytes [bigPage ''A'' 600000, bigPage ''B'' 600000] = 1200186"
  by (simp add: writeSingle_byte_capped ceilings bigPage_bytes)

subsection \<open>C4: the token branch\<close>

text \<open>
  C4, as the code has it.  The claim reads: for a numeric count \<open>t\<close>, if the estimate
  plus \<open>t\<close> exceeds the token ceiling and the pending batch is not empty, the batch is
  flushed and a new one starts with the record and an estimate of \<open>t\<close> halved;
  otherwise, also when the pending batch is empty, the record is appended and the
  estimate grows by \<open>t\<close>.  In the code the test on the pending batch guards the flush
  only.  What holds is: if the estimate plus \<open>t\<close> exceeds the ceiling, the pending
  batch is flushed when it is not empty, and in both cases the batch becomes the record
  alone and the estimate becomes \<open>t\<close> halved; if it does not exceed the ceiling, or no
  ceiling is set, the record is appended and the estimate grows by \<open>t\<close>.
\<close>

theorem token_branch_behaviour:
  "(let s' = addContentOrSplit_tokens c d (Some t) s in
    case maxTokens c of
      None \<Rightarrow>
        currentResults s' = currentResults s @ [d] \<and>
        estimatedTokens s' = estimatedTokens s + t \<and>
        written s' = written s \<and> currentSize s' = currentSize s \<and>
        fileCounter s' = fileCounter s
    | Some T \<Rightarrow>
        if estimatedTokens s + t > T then
          currentResults s' = [d] \<and> estimatedTokens s' = t div 2 \<and>
          (if currentResults s = [] then
             written s' = written s \<and> currentSize s' = currentSize s \<and>
             fileCounter s' = fileCounter s
           else
             written s' = written s @
                [\<lparr> path = nextFileName c (fileCounter s), items = currentResults s,
                   content = JSON_stringify_2 (JArr (currentResults s)) \<rparr>] \<and>
             currentSize s' = 0 \<and> fileCounter s' = fileCounter s + 1)
        else
          currentResults s' = currentResults s @ [d] \<and>
          estimatedTokens s' = estimatedTokens s + t \<and>
          written s' = written s \<and> currentSize s' = currentSize s \<and>
          fileCounter s' = fileCounter s)"
  by (simp add: addContentOrSplit_tokens_def exceedsMaxTokens_def Let_def split: option.splits)

text \<open>The theorem at the second of two pages of 300000 tokens each, under a ceiling of
  400000 tokens: the first page was flushed by the byte check, which left the state
  \<open>afterBigA\<close>, with an empty pending batch and an estimate of 300000; the estimate
  becomes 150000.\<close>

theorem token_branch_behaviour_witness:
  "maxTokens dualCappedConfig = Some 400000 \<and>
   addContentOrSplit roughTokens dualCappedConfig (bigPage ''A'' 1199907) (initialBatcher [])
     = Inr afterBigA \<and>
   currentResults
     (addContentOrSplit_tokens dualCappedConfig (bigPage ''B'' 1199907) (Some 300000) afterBigA)
     = [bigPage ''B'' 1199907] \<and>
   estimatedTokens
     (addContentOrSplit_tokens dualCappedConfig (bigPage ''B'' 1199907) (Some 300000) afterBigA)
     = 150000"
proof -
  have m: "maxTokens dualCappedConfig = Some 400000"
    by (simp add: dualCappedConfig_def)
  have e: "estimatedTokens afterBigA = 300000" "currentResults afterBigA = []"
    by (simp_all add: afterBigA_def)
  from token_branch_behaviour [of dualCappedConfig "bigPage ''B'' 1199907" 300000 afterBigA]
       m e steps_dual_capped(1)
  show ?thesis by (simp add: Let_def)
qed

text \<open>C4 as stated fails: the pending batch is empty and the estimate is 300000 when the
  second page, of 300000 tokens, arrives; the claim gives an estimate of 600000, the
  code one of 150000.\<close>

theorem token_branch_counterexample:
  "roughTokens (JSON_stringify (bigPage ''B'' 1199907)) (tokenLimit dualCappedConfig)
     = Inr (Some 300000) \<and>
   addContentOrSplit roughTokens dualCappedConfig (bigPage ''A'' 1199907) (initialBatcher [])
     = Inr afterBigA \<and>
   currentResults afterBigA = [] \<and>
   estimatedTokens afterBigA = 300000 \<and>
   addContentOrSplit roughTokens dualCappedConfig (bigPage ''B'' 1199907) afterBigA
     = Inr \<lparr> currentResults = [], currentSize = 0, fileCounter = 3, estimatedTokens = 150000,
         written = [\<lparr> path = ''output-1.json'', items = [bigPage ''A'' 1199907],
                      content = JSON_stringify_2 (JArr [bigPage ''A'' 1199907]) \<rparr>,
                    \<lparr> path = ''output-2.json'', items = [bigPage ''B'' 1199907],
                      content = JSON_stringify_2 (JArr [bigPage ''B'' 1199907]) \<rparr>] \<rparr>"
proof -
  have "currentResults afterBigA = []" "estimatedTokens afterBigA = 300000"
    by (simp_all add: afterBigA_def)
  with roughTokens_pages(3) steps_dual_capped show ?thesis by blast
qed

subsection \<open>C5: what a flush does\<close>

text \<open>
  C5, as the code has it.  The claim reads: every flush writes the pending batch as an
  indented JSON array under a name made of the group key and the next index, counted
  from 1, and resets the pending batch, the byte total and the token estimate.
  \<open>writeBatchToFile\<close> does not touch \<open>estimatedTokens\<close>.  What holds is: every flush
  (the three places call the same \<open>writeBatchToFile\<close>) writes the pending batch as the
  text of \<open>JSON.stringify(batch, null, 2)\<close> under the name made of the output base name,
  \<open>-\<close>, the counter and \<open>.json\<close>, empties the pending batch, sets the byte total to zero
  and adds one to the counter, and leaves the token estimate as it is; the files of a
  group with key \<open>k\<close> are named \<open>k-1.json\<close>, \<open>k-2.json\<close>, ... in the order of writing.
\<close>

theorem flush_postcondition:
  "written (writeBatchToFile c s)
     = written s @
         [\<lparr> path = replace_json_suffix (outputFileName c) @ ''-''
                    @ decimal (fileCounter s) @ ''.json'',
            items = currentResults s,
            content = SerializeJSONProperty (ascii ''  '') [] (JArr (currentResults s)) \<rparr>] \<and>
   currentResults (writeBatchToFile c s) = [] \<and>
   currentSize (writeBatchToFile c s) = 0 \<and>
   fileCounter (writeBatchToFile c s) = fileCounter s + 1 \<and>
   estimatedTokens (writeBatchToFile c s) = estimatedTokens s \<and>
   map path (fst (processGroup est fs c (urlKey, files) []))
     = map (\<lambda>i. urlKey @ ''-'' @ decimal i @ ''.json'')
         [1..<Suc (length (fst (processGroup est fs c (urlKey, files) [])))]"
  using processGroup_names [of est fs c urlKey files]
  by (simp add: nextFileName_def JSON_stringify_2_def)

theorem flush_postcondition_witness:
  "addContentOrSplit roughTokens tokenCappedConfig shortPage (initialBatcher []) = Inr afterShort \<and>
   estimatedTokens (writeBatchToFile tokenCappedConfig afterShort) = 23 \<and>
   map path (written (writeBatchToFile tokenCappedConfig afterShort)) = [''output-1.json''] \<and>
   map path (fst (processGroup roughTokens smallStore tokenCappedConfig (''output'', twoFiles) []))
     = [''output-1.json'']"
proof -
  have e: "estimatedTokens afterShort = 23" "written afterShort = []" "fileCounter afterShort = 1"
    by (simp_all add: afterShort_def)
  have l: "length (fst (processGroup roughTokens smallStore tokenCappedConfig
                          (''output'', twoFiles) [])) = 1"
    by (simp add: run_token_capped)
  from flush_postcondition
         [of tokenCappedConfig afterShort roughTokens smallStore "''output''" twoFiles] e l
       steps_token_capped(1)
  show ?thesis by (simp add: configKeys decimal.simps)
qed

text \<open>C5 as stated fails: the byte check flushes the first page of the run above, and
  after the flush the pending batch is empty, the byte total is zero, and the token
  estimate is still 300000.\<close>

theorem flush_postcondition_counterexample:
  "addContentOrSplit roughTokens dualCappedConfig (bigPage ''A'' 1199907) (initialBatcher [])
     = Inr afterBigA \<and>
   afterBigA
     = \<lparr> currentResults = [], currentSize = 0, fileCounter = 2, estimatedTokens = 300000,
         written = [\<lparr> path = ''output-1.json'', items = [bigPage ''A'' 1199907],
                      content = JSON_stringify_2 (JArr [bigPage ''A'' 1199907]) \<rparr>] \<rparr>"
  using steps_dual_capped(1) afterBigA_def by blast

subsection \<open>C6: the grouping key\<close>

text \<open>
  C6, as the code has it.  The claim reads: a record whose source identifier parses as
  a URL is grouped under the host name followed by the path with its slashes replaced
  (\<open>example.com_a_b\<close> for \<open>https://example.com/a/b\<close>), and any other record under a
  fallback made from the configuration's output base name.  \<open>writeSingle\<close> computes
  \<open>cleanUrl\<close> and then uses \<open>configKey\<close> as the key in every branch, as its comment says.
  What holds is: every record file, whatever its source identifier and whether or not
  it can be read, is grouped under the configuration's \<open>outputFileName\<close> without a final
  \<open>.json\<close>, so there is one group, holding the files in the order of the listing.
\<close>

theorem grouping_key_is_output_base_name:
  "categorizeAll URL_new fs c jsonFiles []
     = (if jsonFiles = [] then []
        else [(replace_json_suffix (outputFileName c), jsonFiles)])"
  by (rule categorizeAll_empty)

theorem grouping_key_is_output_base_name_witness:
  "categorizeAll URL_new_http smallStore tokenCappedConfig twoFiles []
     = [(''output'', twoFiles)]"
  using grouping_key_is_output_base_name [of URL_new_http smallStore tokenCappedConfig twoFiles]
  by (simp add: files_nonempty configKeys)

text \<open>C6 as stated fails: the record has the source \<open>https://example.com/a/b\<close>, which
  parses, and its file is grouped under \<open>output\<close>.  (The string that the code computes
  from the URL and does not use is \<open>example.coma_b\<close>: the leading separator of the path
  is removed before the host name is put in front.)\<close>

theorem grouping_key_counterexample:
  "smallStore ''000000001.json'' = Inr shortPage \<and>
   sourceUrlOf shortPage = Inr (Some (JStr (ascii ''https://example.com/a/b''))) \<and>
   URL_new_http (JStr (ascii ''https://example.com/a/b''))
     = Some \<lparr> hostname = ascii ''example.com'', pathname = ascii ''/a/b'' \<rparr> \<and>
   cleanUrl \<lparr> hostname = ascii ''example.com'', pathname = ascii ''/a/b'' \<rparr>
     = ascii ''example.coma_b'' \<and>
   categorizeAll URL_new_http smallStore tokenCappedConfig [''000000001.json''] []
     = [(''output'', [''000000001.json''])]"
  by (simp add: smallStore_def storeOf_def shortPage_def page_def sourceUrlOf_def
        URL_new_http_def hostAndPath_def cleanUrl_def replace_slashes_def ascii_def
        categorize_def tryCategorize_def tokenCappedConfig_def replace_json_suffix_def
        endsWith_def Let_def)

subsection \<open>C7: a record file that cannot be read\<close>

text \<open>
  C7 reads: a record file that is unreadable or unparseable is put into the
  configuration's fallback group, and the aggregation of the remaining records still
  runs to completion.  The first loop does put the file into the group, in its \<open>catch\<close>.
  The second loop reads and parses the same file again outside any \<open>try\<close>, so the error
  is thrown there and \<open>writeSingle\<close> rejects.  In the run below the second of three files
  is not valid JSON: all three files are in the group \<open>output\<close>, no file is written (the
  first record was pending, the third is never reached) and the result is the error.
\<close>

theorem unparseable_record_rejects_writeSingle:
  "categorizeAll URL_new_http brokenStore tokenCappedConfig threeFiles []
     = [(''output'', threeFiles)] \<and>
   writeSingle roughTokens URL_new_http brokenStore threeFiles tokenCappedConfig
     = ([], Inl SyntaxError)"
  by (simp add: categorizeAll_empty files_nonempty configKeys run_broken)

subsection \<open>C8: what the write phase returns\<close>




subsection \<open>C9: sitemap seeds\<close>

text \<open>
  C9: a seed is taken as a sitemap exactly when it ends with \<open>sitemap.xml\<close>; the crawler
  then starts on the list of URLs that the sitemap fetch returns for the seed, and on
  the seed alone otherwise.  (When the fetch fails the call is rejected, and when
  \<open>NO_CRAWL\<close> is set the crawler is not started at all.)
\<close>

theorem sitemap_classification:
  "(isUrlASitemap u \<longleftrightarrow> (\<exists>p. u = p @ ''sitemap.xml'')) \<and>
   crawlSingle False downloadListOfUrls c
     = (if \<exists>p. url c = p @ ''sitemap.xml''
        then (case downloadListOfUrls (url c) of
                Inl e \<Rightarrow> Inl e
              | Inr listOfUrls \<Rightarrow> Inr (Run listOfUrls))
        else Inr (Run [url c]))"
  by (simp add: isUrlASitemap_def SITEMAP_SUFFIX_def crawlSingle_def endsWith_iff)

theorem sitemap_classification_witness:
  "isUrlASitemap ''https://site.test/sitemap.xml'' \<and>
   crawlSingle False
     (\<lambda>u. Inr [''https://site.test/a'', ''https://site.test/b'']) sitemapConfig
     = Inr (Run [''https://site.test/a'', ''https://site.test/b'']) \<and>
   crawlSingle False
     (\<lambda>u. Inr [''https://site.test/a'', ''https://site.test/b'']) tokenCappedConfig
     = Inr (Run [''https://example.com/a/b''])"
proof -
  have a: "\<exists>p. ''https://site.test/sitemap.xml'' = p @ ''sitemap.xml''"
    by (rule exI [of _ "''https://site.test/''"]) simp
  have b: "\<not> (\<exists>p. ''https://example.com/a/b'' = p @ ''sitemap.xml'')"
    by (auto simp: append_eq_Cons_conv)
  have u: "url sitemapConfig = ''https://site.test/sitemap.xml''"
    "url tokenCappedConfig = ''https://example.com/a/b''"
    by (simp_all add: sitemapConfig_def tokenCappedConfig_def)
  from sitemap_classification
         [of "''https://site.test/sitemap.xml''"
             "\<lambda>u. Inr [''https://site.test/a'', ''https://site.test/b'']" sitemapConfig]
       sitemap_classification
         [of "''https://site.test/sitemap.xml''"
             "\<lambda>u. Inr [''https://site.test/a'', ''https://site.test/b'']" tokenCappedConfig]
       a b u
  show ?thesis by simp
qed

subsection \<open>C10: two serialisations\<close>

text \<open>
  C10, as the code has it.  The claim reads: the bytes added to the byte total for a
  record are the UTF-8 bytes of \<open>JSON.stringify(data)\<close>, the text without indentation,
  while every file written holds \<open>JSON.stringify(batch, null, 2)\<close>; hence the byte
  ceiling bears on the sum of the compact sizes of a file's members and not on the
  size of the file.  The first two parts hold.  The total that the byte check compares
  with the ceiling is not the sum over the members of the pending batch: line 696 adds
  the bytes of every record, also of one that the token branch did not push.  What
  holds is: when the estimator returns for a record, the step adds to the byte total
  (zero after a flush in the token branch) the number of bytes of the UTF-8 encoding of
  the record's text without indentation, whether or not the record was pushed, and
  flushes when the new total exceeds the ceiling; every file written holds the text of
  its batch indented by two spaces; and over any stretch of records without a flush
  the byte total grows by the compact sizes of all the records of the stretch.
\<close>

theorem byte_total_counts_compact_utf8_of_every_record:
  "(est (JSON_stringify d) (tokenLimit c) = Inr tc \<longrightarrow>
      (\<exists>s'. addContentOrSplit est c d s = Inr s' \<and>
         (let mid = addContentOrSplit_tokens c d tc s;
              total = currentSize mid + getStringByteSize (SerializeJSONProperty [] [] d)
          in if enat total > maxBytes c
             then currentSize s' = 0 \<and> currentResults s' = [] \<and>
                  written s' = written mid @
                    [\<lparr> path = nextFileName c (fileCounter mid), items = currentResults mid,
                       content = SerializeJSONProperty (ascii ''  '') []
                                   (JArr (currentResults mid)) \<rparr>]
             else currentSize s' = total \<and> currentResults s' = currentResults mid \<and>
                  written s' = written mid))) \<and>
   getStringByteSize str = length (concat (map utf8_encode str)) \<and>
   getStringByteSize str
     = sum_list (map (\<lambda>C. if C < 0x80 then 1 else if C < 0x800 then 2
                            else if C < 0x10000 then 3 else 4) str) \<and>
   map content (fst (processGroup est fs c (urlKey, files) []))
     = map (\<lambda>a. SerializeJSONProperty (ascii ''  '') [] (JArr (items a)))
         (fst (processGroup est fs c (urlKey, files) [])) \<and>
   (map fs files = map Inr ds \<and>
    (\<forall>d\<in>set ds. \<exists>tc. est (JSON_stringify d) (tokenLimit c) = Inr tc) \<and>
    written (fst (processFiles est fs c files s)) = written s \<longrightarrow>
      currentSize (fst (processFiles est fs c files s))
        = currentSize s + sum_list (map (\<lambda>d. getStringByteSize (SerializeJSONProperty [] [] d)) ds))"
proof -
  have 1: "est (JSON_stringify d) (tokenLimit c) = Inr tc \<longrightarrow>
      (\<exists>s'. addContentOrSplit est c d s = Inr s' \<and>
         (let mid = addContentOrSplit_tokens c d tc s;
              total = currentSize mid + getStringByteSize (SerializeJSONProperty [] [] d)
          in if enat total > maxBytes c
             then currentSize s' = 0 \<and> currentResults s' = [] \<and>
                  written s' = written mid @
                    [\<lparr> path = nextFileName c (fileCounter mid), items = currentResults mid,
                       content = SerializeJSONProperty (ascii ''  '') []
                                   (JArr (currentResults mid)) \<rparr>]
             else currentSize s' = total \<and> currentResults s' = currentResults mid \<and>
                  written s' = written mid))"
    by (simp add: addContentOrSplit_def addContentOrSplit_bytes_def Let_def JSON_stringify_def
          JSON_stringify_2_def)
  have 2: "getStringByteSize str = length (concat (map utf8_encode str))"
    by (simp add: getStringByteSize_def)
  have 3: "getStringByteSize str
     = sum_list (map (\<lambda>C. if C < 0x80 then 1 else if C < 0x800 then 2
                            else if C < 0x10000 then 3 else 4) str)"
    by (rule getStringByteSize_sum)
  have 4: "map content (fst (processGroup est fs c (urlKey, files) []))
     = map (\<lambda>a. SerializeJSONProperty (ascii ''  '') [] (JArr (items a)))
         (fst (processGroup est fs c (urlKey, files) []))"
    using processGroup_content [of est fs c urlKey files]
    by (simp add: JSON_stringify_2_def)
  have 5: "map fs files = map Inr ds \<and>
    (\<forall>d\<in>set ds. \<exists>tc. est (JSON_stringify d) (tokenLimit c) = Inr tc) \<and>
    written (fst (processFiles est fs c files s)) = written s \<longrightarrow>
      currentSize (fst (processFiles est fs c files s))
        = currentSize s + sum_list (map (\<lambda>d. getStringByteSize (SerializeJSONProperty [] [] d)) ds)"
    using processFiles_no_flush [where est = est and c = c and fs = fs and files = files
                                   and ds = ds and s = s]
    by (simp add: contentBytes_def JSON_stringify_def)
  from 1 2 3 4 5 show ?thesis by blast
qed

text \<open>The theorem at \<open>accentPage\<close>, whose text has code points of two, three and four
  bytes: 102 bytes are counted for the 96 code points of its compact text.  And at the
  two pages of \<open>smallStore\<close>: no file is written while they are processed, and the byte
  total after them is 238, the bytes of both, though the second was not pushed; the
  file written for the first at the end of the group has 128 bytes.\<close>

theorem byte_total_counts_compact_utf8_of_every_record_witness:
  "roughTokens (JSON_stringify accentPage) (tokenLimit byteCappedConfig) = Inr (Some 25) \<and>
   (\<exists>s'. addContentOrSplit roughTokens byteCappedConfig accentPage (initialBatcher []) = Inr s'
         \<and> currentSize s' = 102 \<and> currentResults s' = [accentPage]) \<and>
   getStringByteSize (JSON_stringify accentPage) = 102 \<and>
   length (JSON_stringify accentPage) = 96 \<and>
   map smallStore twoFiles = map Inr [shortPage, longPage] \<and>
   written (fst (processFiles roughTokens smallStore tokenCappedConfig twoFiles
                   (initialBatcher []))) = [] \<and>
   currentSize (fst (processFiles roughTokens smallStore tokenCappedConfig twoFiles
                       (initialBatcher []))) = 238 \<and>
   map (\<lambda>a. getStringByteSize (content a))
     (fst (processGroup roughTokens smallStore tokenCappedConfig (''output'', twoFiles) []))
     = [128]"
proof -
  have r: "roughTokens (JSON_stringify accentPage) (tokenLimit byteCappedConfig) = Inr (Some 25)"
    by (simp add: roughTokens_def tokenLimit_def byteCappedConfig_def accentPage_bytes)
  have t: "addContentOrSplit_tokens byteCappedConfig accentPage (Some 25) (initialBatcher [])
             = \<lparr> currentResults = [accentPage], currentSize = 0, fileCounter = 1,
                 estimatedTokens = 25, written = [] \<rparr>"
    by (simp add: addContentOrSplit_tokens_def exceedsMaxTokens_def byteCappedConfig_def
          initialBatcher_def)
  note inst = byte_total_counts_compact_utf8_of_every_record
                [where est = roughTokens and c = byteCappedConfig and d = accentPage
                   and tc = "Some 25" and s = "initialBatcher []"]
  have a: "\<exists>s'. addContentOrSplit roughTokens byteCappedConfig accentPage (initialBatcher [])
                   = Inr s' \<and> currentSize s' = 102 \<and> currentResults s' = [accentPage]"
    using conjunct1 [OF inst] r t accentPage_bytes(1) ceilings(1)
    by (auto simp add: JSON_stringify_def Let_def)
  note inst2 = byte_total_counts_compact_utf8_of_every_record
                [where est = roughTokens and c = tokenCappedConfig and fs = smallStore
                   and files = twoFiles and ds = "[shortPage, longPage]"
                   and s = "initialBatcher []" and urlKey = "''output''"]
  have w: "written (fst (processFiles roughTokens smallStore tokenCappedConfig twoFiles
                           (initialBatcher []))) = []"
    by (simp add: run_small_files)
  have e: "\<forall>d\<in>set [shortPage, longPage].
             \<exists>tc. roughTokens (JSON_stringify d) (tokenLimit tokenCappedConfig) = Inr tc"
    by (simp add: roughTokens_returns)
  have b: "currentSize (fst (processFiles roughTokens smallStore tokenCappedConfig twoFiles
                       (initialBatcher []))) = 238"
    using conjunct2 [OF conjunct2 [OF conjunct2 [OF conjunct2 [OF inst2]]]]
          smallStore_reads e w shortPage_bytes longPage_bytes
    by (simp add: initialBatcher_def JSON_stringify_def)
  have i: "map items
             (fst (processGroup roughTokens smallStore tokenCappedConfig (''output'', twoFiles) []))
           = [[shortPage]]"
    by (simp add: run_token_capped)
  have m: "map (\<lambda>a. getStringByteSize (content a)) xs
             = map (getStringByteSize \<circ> (\<lambda>v. SerializeJSONProperty (ascii ''  '') [] (JArr v)))
                 (map items xs)"
    if "map content xs = map (\<lambda>a. SerializeJSONProperty (ascii ''  '') [] (JArr (items a))) xs"
    for xs :: "artifact list"
    using that by (induction xs) auto
  have f: "map (\<lambda>a. getStringByteSize (content a))
     (fst (processGroup roughTokens smallStore tokenCappedConfig (''output'', twoFiles) []))
     = [128]"
    using m [OF conjunct1 [OF conjunct2 [OF conjunct2 [OF conjunct2 [OF inst2]]]]] i
          shortPage_file_bytes
    by (simp add: JSON_stringify_2_def)
  from r a b w f accentPage_bytes smallStore_reads show ?thesis by simp
qed

text \<open>C10 as stated fails: under a byte ceiling of 1048576 bytes the pending batch holds
  \<open>shortPage\<close>, 95 bytes, when a page of 1048576 bytes arrives for which the estimator
  returns \<open>false\<close>.  The page is not pushed, its bytes are counted, and the byte check
  writes a file whose only member is \<open>shortPage\<close>.\<close>

theorem byte_total_counterexample:
  "maxBytes narrowConfig = enat 1048576 \<and>
   contentBytes [shortPage] = 95 \<and>
   contentBytes [bigPage ''B'' 1048483] = 1048576 \<and>
   roughTokens (JSON_stringify (bigPage ''B'' 1048483)) (tokenLimit narrowConfig) = Inr None \<and>
   addContentOrSplit roughTokens narrowConfig shortPage (initialBatcher []) = Inr afterShort \<and>
   addContentOrSplit roughTokens narrowConfig (bigPage ''B'' 1048483) afterShort
     = Inr \<lparr> currentResults = [], currentSize = 0, fileCounter = 2, estimatedTokens = 23,
             written = [\<lparr> path = ''output-1.json'', items = [shortPage],
                          content = JSON_stringify_2 (JArr [shortPage]) \<rparr>] \<rparr>"
proof -
  have "contentBytes [shortPage] = 95" "contentBytes [bigPage ''B'' 1048483] = 1048576"
    by (simp_all add: shortPage_bytes bigPage_bytes)
  with ceilings(4) roughTokens_pages(4) steps_mixed show ?thesis by blast
qed

end
